theory Spec2Isabelle
  imports Main "HOL-Library.Multiset"
begin

section \<open>Data model\<close>

text \<open>
  Primary keys are database-generated UUIDs. The model writes an identifier as a natural
  number; a generated key is one more than the largest key of the table, which is all
  that is used of a generated UUID: it differs from every key already stored.
  A \<open>Date\<close> is a natural number (milliseconds); each operation that reads the clock
  (\<open>new Date()\<close>, or a \<open>CreateDateColumn\<close> filled on insert) takes the current
  time as its last argument.
\<close>

type_synonym uuid = nat
type_synonym timestamp = nat

datatype ConversationType = DIRECT | GROUP | CHANNEL

datatype MessageType = TEXT | IMAGE | VIDEO | AUDIO | FILE | SYSTEM

datatype MessageStatus = SENT | DELIVERED | READ | FAILED

datatype UserStatus = ONLINE | OFFLINE | AWAY | BUSY

text \<open>The columns of \<open>User\<close> that the chat service and the gateway read or write.\<close>

record User =
  u_id :: uuid
  u_username :: string
  u_status :: UserStatus
  u_lastSeen :: "timestamp option"

text \<open>
  \<open>Conversation\<close>: its columns and the \<open>participants\<close> relation (the rows of the join
  table \<open>conversation_participants\<close> of this conversation, as user ids).
\<close>

record Conversation =
  c_id :: uuid
  c_name :: "string option"
  c_type :: ConversationType
  c_description :: "string option"
  c_avatar :: "string option"
  c_isPrivate :: bool
  c_createdBy :: "uuid option"
  c_lastActivity :: "timestamp option"
  c_participants :: "uuid list"

record ConversationAdmin =
  a_id :: uuid
  a_conversationId :: uuid
  a_userId :: uuid

record Message =
  m_id :: uuid
  m_content :: string
  m_type :: MessageType
  m_status :: MessageStatus
  m_senderId :: uuid
  m_conversationId :: uuid
  m_replyToId :: "uuid option"
  m_isEdited :: bool
  m_editedAt :: "timestamp option"
  m_isDeleted :: bool
  m_deletedAt :: "timestamp option"
  m_metadata :: "string option"
  m_createdAt :: timestamp

record MessageReaction =
  r_id :: uuid
  r_messageId :: uuid
  r_userId :: uuid
  r_emoji :: string
  r_createdAt :: timestamp

record MessageRead =
  rd_id :: uuid
  rd_messageId :: uuid
  rd_userId :: uuid
  rd_readAt :: timestamp

text \<open>
  The durable state: one list of rows per repository injected into \<open>ChatService\<close>, in
  insertion order. \<open>findOne\<close> and \<open>getOne\<close> return the first matching row.
\<close>

record store =
  users :: "User list"
  conversations :: "Conversation list"
  admins :: "ConversationAdmin list"
  messages :: "Message list"
  reactions :: "MessageReaction list"
  reads :: "MessageRead list"

text \<open>
  The exceptions the service throws, with their messages. \<open>QueryFailedError\<close> is the
  storage layer rejecting a statement. The model raises it where the source hands the
  database a value it cannot take: a reply to a message that is not stored
  (\<open>sendMessage\<close>), a participant id that is not a UUID (\<open>removeParticipant\<close>), a
  negative or too large page window (\<open>getMessages\<close>).
\<close>

datatype error = NotFoundException string | ForbiddenException string | QueryFailedError

text \<open>\<open>PrimaryGeneratedColumn\<close>: a key that no row of the table has.\<close>

definition generated :: "uuid list \<Rightarrow> uuid" where
  "generated ids = Suc (fold max ids 0)"

section \<open>Request bodies\<close>





record ReactToMessageDto =
  rt_emoji :: string

section \<open>ChatService\<close>

text \<open>
  A method that writes returns its result, or the exception it throws, together with the
  store as it is at that moment: an exception does not undo a write made before it.
  Repository calls themselves are taken to succeed (the storage is available and accepts
  the write).
\<close>

subsection \<open>Conversations\<close>

text \<open>\<open>[...new Set(xs)]\<close>: the elements of \<open>xs\<close> in order of first occurrence.\<close>

definition uniq :: "'a list \<Rightarrow> 'a list" where
  "uniq xs = fold (\<lambda>x acc. if x \<in> set acc then acc else acc @ [x]) xs []"





text \<open>
  \<open>getUserConversations\<close>: the conversations in which the user participates. The source
  orders them by \<open>lastActivity\<close>; the gateway, its only caller here, uses the ids as a
  set, and the model keeps the table order.
\<close>

definition getUserConversations :: "store \<Rightarrow> uuid \<Rightarrow> Conversation list" where
  "getUserConversations s userId =
     map (\<lambda>c. c\<lparr>c_participants := filter (\<lambda>p. p = userId) (c_participants c)\<rparr>)
       (filter (\<lambda>c. userId \<in> set (c_participants c)) (conversations s))"

text \<open>
  \<open>getConversationById\<close> joins and selects the participants under the condition
  \<open>participant.id = :userId\<close>: the rows that remain are those of the requester, so the
  entity is found only if the requester participates, and its \<open>participants\<close> property
  holds the requester alone.
\<close>

definition getConversationById :: "store \<Rightarrow> uuid \<Rightarrow> uuid \<Rightarrow> error + Conversation" where
  "getConversationById s conversationId userId =
    (case find (\<lambda>c. c_id c = conversationId \<and> userId \<in> set (c_participants c))
               (conversations s) of
       None \<Rightarrow> Inl (NotFoundException ''Conversation not found or access denied'')
     | Some conversation \<Rightarrow>
         Inr (conversation\<lparr>c_participants :=
                filter (\<lambda>p. p = userId) (c_participants conversation)\<rparr>))"

definition isUserAdmin :: "store \<Rightarrow> uuid \<Rightarrow> uuid \<Rightarrow> bool" where
  "isUserAdmin s conversationId userId \<longleftrightarrow>
     find (\<lambda>a. a_conversationId a = conversationId \<and> a_userId a = userId) (admins s) \<noteq> None"

text \<open>
  \<open>conversationRepository.save\<close> of an entity that carries its id: the row with that id
  takes the entity's columns, and the join table is brought to the entity's
  \<open>participants\<close> array (rows are added for the members that are new and removed for
  the stored members that the array does not hold). An entity whose id is not stored
  is inserted.
\<close>

definition saveConversation :: "store \<Rightarrow> Conversation \<Rightarrow> store" where
  "saveConversation s conversation =
    (let row = conversation\<lparr>c_participants := uniq (c_participants conversation)\<rparr>
     in if find (\<lambda>c. c_id c = c_id conversation) (conversations s) = None
        then s\<lparr>conversations := conversations s @ [row]\<rparr>
        else s\<lparr>conversations :=
                 map (\<lambda>c. if c_id c = c_id conversation then row else c) (conversations s)\<rparr>)"




text \<open>
  \<open>removeParticipant\<close> takes \<open>participantId\<close> from the path as it is written, with no
  check that it is a UUID. The method compares it in memory and hands it to the
  database only in its last statement, \<open>adminRepository.delete\<close>, after the save: a
  text that is not a UUID is rejected there, on the \<open>uuid\<close> column. The other ids of
  the service reach the database in the first query of their method, before any write,
  and the model takes them to be UUIDs.
\<close>

datatype pathId = Uuid uuid | NotUuid string

definition removeParticipant ::
  "store \<Rightarrow> uuid \<Rightarrow> uuid \<Rightarrow> pathId \<Rightarrow> (error + unit) \<times> store" where
  "removeParticipant s conversationId userId participantId =
    (case getConversationById s conversationId userId of
       Inl e \<Rightarrow> (Inl e, s)
     | Inr conversation \<Rightarrow>
         if c_type conversation = DIRECT
         then (Inl (ForbiddenException
                      ''Cannot remove participants from direct conversations''), s)
         else
           (let isAdmin = isUserAdmin s conversationId userId;
                isRemovingSelf = (Uuid userId = participantId)
            in if \<not> isAdmin \<and> \<not> isRemovingSelf
               then (Inl (ForbiddenException ''Only admins can remove other participants''), s)
               else
                 (let s1 = saveConversation s
                             (conversation\<lparr>c_participants :=
                                filter (\<lambda>p. Uuid p \<noteq> participantId)
                                  (c_participants conversation)\<rparr>)
                  in case participantId of
                       NotUuid _ \<Rightarrow> (Inl QueryFailedError, s1)
                     | Uuid removed \<Rightarrow>
                         (Inr (),
                          s1\<lparr>admins :=
                               filter (\<lambda>a. \<not> (a_conversationId a = conversationId \<and>
                                               a_userId a = removed))
                                 (admins s1)\<rparr>))))"

subsection \<open>Messages\<close>

text \<open>\<open>findOne\<close> with \<open>relations: ['sender']\<close>: the message, or null, with its sender.\<close>

definition withSender :: "store \<Rightarrow> Message option \<Rightarrow> (Message \<times> User option) option" where
  "withSender s found =
     map_option (\<lambda>m. (m, find (\<lambda>u. u_id u = m_senderId m) (users s))) found"


text \<open>
  \<open>order: { createdAt: 'DESC' }\<close> in \<open>markAsRead\<close>: newest first. There the order
  decides only in which order the markers are appended, and for rows with equal
  \<open>createdAt\<close> the model takes the reverse of the stable ascending sort.
\<close>

definition newestFirst :: "Message list \<Rightarrow> Message list" where
  "newestFirst ms = rev (sort_key m_createdAt ms)"

record LoadedMessage =
  lm_message :: Message
  lm_sender :: "User option"
  lm_replyTo :: "Message option"
  lm_reactions :: "(MessageReaction \<times> User option) list"

text \<open>\<open>relations: ['sender', 'replyTo', 'reactions', 'reactions.user']\<close>.\<close>

definition loadRelations :: "store \<Rightarrow> Message \<Rightarrow> LoadedMessage" where
  "loadRelations s m =
     \<lparr>lm_message = m,
      lm_sender = find (\<lambda>u. u_id u = m_senderId m) (users s),
      lm_replyTo = (case m_replyToId m of
                      None \<Rightarrow> None
                    | Some r \<Rightarrow> find (\<lambda>x. m_id x = r) (messages s)),
      lm_reactions = map (\<lambda>r. (r, find (\<lambda>u. u_id u = r_userId r) (users s)))
                       (filter (\<lambda>r. r_messageId r = m_id m) (reactions s))\<rparr>"

record MessagePage =
  pg_messages :: "LoadedMessage list"
  pg_total :: nat

text \<open>
  \<open>page\<close> and \<open>limit\<close> are JavaScript numbers. A number holds an integer exactly up
  to \<open>2^53\<close>; beyond, it holds the nearest integer of 53 significant bits, the even one
  of two that are equally near. \<open>jsNumber\<close> is that rounding; it leaves a number below
  \<open>2^53\<close> as it is.
\<close>

function doubleShift :: "nat \<Rightarrow> nat" where
  "doubleShift n = (if n < 2 ^ 53 then 0 else Suc (doubleShift (n div 2)))"
  by pat_completeness auto
termination
  by (relation "measure (\<lambda>n. n)") auto

declare doubleShift.simps [simp del]

definition jsNat :: "nat \<Rightarrow> nat" where
  "jsNat n =
     (let e = doubleShift n; q = n div 2 ^ e; r = n mod 2 ^ e
      in if 2 ^ e < 2 * r \<or> (2 * r = 2 ^ e \<and> odd q) then (q + 1) * 2 ^ e else q * 2 ^ e)"

definition jsNumber :: "int \<Rightarrow> int" where
  "jsNumber x = (if x < 0 then - int (jsNat (nat (- x))) else int (jsNat (nat x)))"

text \<open>
  \<open>order: { createdAt: 'DESC' }\<close> in \<open>getMessages\<close>: newest first, and rows with equal
  \<open>createdAt\<close> in an order the database chooses. \<open>tie\<close> stands for that choice: among
  equal \<open>createdAt\<close> the rows come by descending \<open>tie\<close>.
\<close>

definition newestFirstBy :: "(Message \<Rightarrow> nat) \<Rightarrow> Message list \<Rightarrow> Message list" where
  "newestFirstBy tie ms = rev (sort_key m_createdAt (sort_key tie ms))"

text \<open>\<open>(page - 1) * limit\<close>, computed on numbers.\<close>

definition pageOffset :: "int \<Rightarrow> int \<Rightarrow> int" where
  "pageOffset page limit = jsNumber (jsNumber (jsNumber page - 1) * jsNumber limit)"

text \<open>
  \<open>getMessages\<close>. The window is \<open>skip = (page - 1) * limit\<close>, \<open>take = limit\<close>. A
  \<open>take\<close> of 0 counts as no \<open>take\<close>, and then \<open>skip\<close> is 0 as well: the query has no
  window and every non-deleted message comes back. A negative \<open>take\<close> or \<open>skip\<close>, and
  one that does not fit the database's 64-bit \<open>LIMIT\<close> and \<open>OFFSET\<close>, are rejected by
  the database.
\<close>

definition getMessages ::
  "store \<Rightarrow> uuid \<Rightarrow> uuid \<Rightarrow> int \<Rightarrow> int \<Rightarrow> (Message \<Rightarrow> nat) \<Rightarrow> error + MessagePage" where
  "getMessages s conversationId userId page limit tie =
    (case getConversationById s conversationId userId of
       Inl e \<Rightarrow> Inl e
     | Inr _ \<Rightarrow>
        (let matching = filter (\<lambda>m. m_conversationId m = conversationId \<and> \<not> m_isDeleted m)
                          (messages s);
             ordered = newestFirstBy tie matching;
             take' = jsNumber limit;
             skip = pageOffset page limit
         in if take' = 0
            then Inr \<lparr>pg_messages = map (loadRelations s) (rev ordered),
                      pg_total = length matching\<rparr>
            else if take' < 0 \<or> skip < 0 \<or> 2 ^ 63 \<le> take' \<or> 2 ^ 63 \<le> skip
            then Inl QueryFailedError
            else (let found = take (nat take') (drop (nat skip) ordered)
                  in Inr \<lparr>pg_messages = map (loadRelations s) (rev found),
                          pg_total = length matching\<rparr>)))"


definition editMessage ::
  "store \<Rightarrow> uuid \<Rightarrow> uuid \<Rightarrow> string \<Rightarrow> timestamp
     \<Rightarrow> (error + (Message \<times> User option) option) \<times> store" where
  "editMessage s messageId userId content now =
    (case find (\<lambda>m. m_id m = messageId \<and> m_senderId m = userId) (messages s) of
       None \<Rightarrow> (Inl (NotFoundException ''Message not found or access denied''), s)
     | Some message \<Rightarrow>
        (let s1 = s\<lparr>messages :=
                     map (\<lambda>m. if m_id m = messageId
                               then m\<lparr>m_content := content, m_isEdited := True,
                                      m_editedAt := Some now\<rparr>
                               else m)
                         (messages s)\<rparr>
         in (Inr (withSender s1 (find (\<lambda>m. m_id m = messageId) (messages s1))), s1)))"

subsection \<open>Reactions and read markers\<close>


definition sameReaction :: "uuid \<Rightarrow> uuid \<Rightarrow> string \<Rightarrow> MessageReaction \<Rightarrow> bool" where
  "sameReaction messageId userId emoji r \<longleftrightarrow>
     r_messageId r = messageId \<and> r_userId r = userId \<and> r_emoji r = emoji"

definition reactToMessage ::
  "store \<Rightarrow> uuid \<Rightarrow> uuid \<Rightarrow> ReactToMessageDto \<Rightarrow> timestamp
     \<Rightarrow> (error + MessageReaction option) \<times> store" where
  "reactToMessage s messageId userId reactDto now =
    (case find (\<lambda>m. m_id m = messageId) (messages s) of
       None \<Rightarrow> (Inl (NotFoundException ''Message not found''), s)
     | Some message \<Rightarrow>
        (case find (sameReaction messageId userId (rt_emoji reactDto)) (reactions s) of
           Some existingReaction \<Rightarrow>
             (Inr None,
              s\<lparr>reactions := filter (\<lambda>r. r_id r \<noteq> r_id existingReaction) (reactions s)\<rparr>)
         | None \<Rightarrow>
             (let reaction = \<lparr>r_id = generated (map r_id (reactions s)),
                              r_messageId = messageId, r_userId = userId,
                              r_emoji = rt_emoji reactDto, r_createdAt = now\<rparr>
              in (Inr (Some reaction), s\<lparr>reactions := reactions s @ [reaction]\<rparr>))))"

text \<open>
  \<open>markAsRead\<close> runs one callback per message of the conversation, deleted or not:
  look for the marker of (message, user), insert one when there is none. The callbacks
  of one call concern different messages; the model runs them in the order of the list.
\<close>

definition markOne :: "uuid \<Rightarrow> timestamp \<Rightarrow> Message \<Rightarrow> store \<Rightarrow> store" where
  "markOne userId now message s =
    (case find (\<lambda>r. rd_messageId r = m_id message \<and> rd_userId r = userId) (reads s) of
       Some existingRead \<Rightarrow> s
     | None \<Rightarrow>
         s\<lparr>reads := reads s @
              [\<lparr>rd_id = generated (map rd_id (reads s)), rd_messageId = m_id message,
                rd_userId = userId, rd_readAt = now\<rparr>]\<rparr>)"

definition markAsRead :: "store \<Rightarrow> uuid \<Rightarrow> uuid \<Rightarrow> timestamp \<Rightarrow> (error + unit) \<times> store" where
  "markAsRead s conversationId userId now =
    (let found = newestFirst (filter (\<lambda>m. m_conversationId m = conversationId) (messages s))
     in (Inr (), fold (markOne userId now) found s))"

section \<open>ChatGateway: presence\<close>

type_synonym socketId = nat

text \<open>
  The gateway's two maps, and what it keeps on each client socket: \<open>client.userId\<close>
  and the rooms the socket has joined (a room \<open>conversation:<id>\<close> is written as the
  conversation's id).
\<close>

record gateway =
  connectedUsers :: "uuid \<rightharpoonup> socketId set"
  typingUsers :: "uuid \<rightharpoonup> uuid set"
  clientUserId :: "socketId \<rightharpoonup> uuid"
  clientRooms :: "socketId \<Rightarrow> uuid set"

datatype serverEvent = UserOnline uuid User | UserOffline uuid

text \<open>
  What a handler sends: \<open>client.disconnect()\<close>, and \<open>client.broadcast.emit\<close>, which
  reaches every connected socket but the client.
\<close>

datatype effect = ClientDisconnect socketId | BroadcastEmit socketId serverEvent

definition updateStatus :: "store \<Rightarrow> uuid \<Rightarrow> UserStatus \<Rightarrow> timestamp \<Rightarrow> store" where
  "updateStatus s userId newStatus now =
     s\<lparr>users := map (\<lambda>u. if u_id u = userId
                          then u\<lparr>u_status := newStatus, u_lastSeen := Some now\<rparr> else u)
                     (users s)\<rparr>"

text \<open>
  \<open>handleConnection\<close>. \<open>token\<close> is the token of the handshake, if there is one;
  \<open>verify\<close> stands for \<open>jwtService.verify\<close> and gives the subject of a valid token.
  A token that does not verify and a user that \<open>findById\<close> does not find both end in
  the \<open>catch\<close> branch.
\<close>

definition handleConnection ::
  "gateway \<Rightarrow> store \<Rightarrow> socketId \<Rightarrow> string option \<Rightarrow> (string \<Rightarrow> uuid option) \<Rightarrow> timestamp
     \<Rightarrow> gateway \<times> store \<times> effect list" where
  "handleConnection g s client token verify now =
    (case token of
       None \<Rightarrow> (g, s, [ClientDisconnect client])
     | Some t \<Rightarrow>
        (case verify t of
           None \<Rightarrow> (g, s, [ClientDisconnect client])
         | Some sub \<Rightarrow>
            (case find (\<lambda>u. u_id u = sub) (users s) of
               None \<Rightarrow> (g, s, [ClientDisconnect client])
             | Some user \<Rightarrow>
                (let g1 = g\<lparr>clientUserId := (clientUserId g)(client \<mapsto> u_id user)\<rparr>;
                     userSockets = (case connectedUsers g1 (u_id user) of
                                      None \<Rightarrow> {} | Some sockets \<Rightarrow> sockets);
                     g2 = g1\<lparr>connectedUsers :=
                              (connectedUsers g1)(u_id user \<mapsto> insert client userSockets)\<rparr>;
                     s1 = updateStatus s (u_id user) ONLINE now;
                     joined = set (map c_id (getUserConversations s1 (u_id user)));
                     g3 = g2\<lparr>clientRooms :=
                              (clientRooms g2)(client := clientRooms g2 client \<union> joined)\<rparr>
                 in (g3, s1, [BroadcastEmit client (UserOnline (u_id user) user)])))))"

definition handleDisconnect ::
  "gateway \<Rightarrow> store \<Rightarrow> socketId \<Rightarrow> timestamp \<Rightarrow> gateway \<times> store \<times> effect list" where
  "handleDisconnect g s client now =
    (case clientUserId g client of
       None \<Rightarrow> (g, s, [])
     | Some userId \<Rightarrow>
        (case connectedUsers g userId of
           None \<Rightarrow> (g, s, [])
         | Some userSockets \<Rightarrow>
            (let remaining = userSockets - {client}
             in if remaining = {}
                then (g\<lparr>connectedUsers := (connectedUsers g)(userId := None)\<rparr>,
                      updateStatus s userId OFFLINE now,
                      [BroadcastEmit client (UserOffline userId)])
                else (g\<lparr>connectedUsers := (connectedUsers g)(userId \<mapsto> remaining)\<rparr>,
                      s, []))))"

section \<open>Measures and example data\<close>

definition countReactions :: "store \<Rightarrow> uuid \<Rightarrow> uuid \<Rightarrow> string \<Rightarrow> nat" where
  "countReactions s messageId userId emoji =
     length (filter (sameReaction messageId userId emoji) (reactions s))"

definition demoUser :: "uuid \<Rightarrow> User" where
  "demoUser i = \<lparr>u_id = i, u_username = ''user'', u_status = OFFLINE, u_lastSeen = None\<rparr>"

definition demoMessage :: "uuid \<Rightarrow> uuid \<Rightarrow> uuid \<Rightarrow> bool \<Rightarrow> timestamp \<Rightarrow> Message" where
  "demoMessage i conversationId senderId deleted t =
     \<lparr>m_id = i, m_content = ''hello'', m_type = TEXT, m_status = SENT,
      m_senderId = senderId, m_conversationId = conversationId, m_replyToId = None,
      m_isEdited = False, m_editedAt = None, m_isDeleted = deleted,
      m_deletedAt = (if deleted then Some t else None), m_metadata = None,
      m_createdAt = t\<rparr>"

definition demoConversation :: "uuid \<Rightarrow> ConversationType \<Rightarrow> uuid list \<Rightarrow> Conversation" where
  "demoConversation i ty ps =
     \<lparr>c_id = i, c_name = None, c_type = ty, c_description = None, c_avatar = None,
      c_isPrivate = False, c_createdBy = None, c_lastActivity = None, c_participants = ps\<rparr>"

definition demoStore :: store where
  "demoStore =
     \<lparr>users = [demoUser 1, demoUser 2, demoUser 3],
      conversations = [demoConversation 1 DIRECT [1, 2], demoConversation 2 GROUP [1, 2]],
      admins = [\<lparr>a_id = 1, a_conversationId = 2, a_userId = 1\<rparr>],
      messages = [demoMessage 1 1 1 False 10, demoMessage 2 1 2 True 20,
                  demoMessage 3 2 1 False 30],
      reactions = [],
      reads = []\<rparr>"

definition hasRead :: "store \<Rightarrow> uuid \<Rightarrow> uuid \<Rightarrow> bool" where
  "hasRead s messageId userId \<longleftrightarrow>
     (\<exists>r\<in>set (reads s). rd_messageId r = messageId \<and> rd_userId r = userId)"

definition countReads :: "store \<Rightarrow> uuid \<Rightarrow> uuid \<Rightarrow> nat" where
  "countReads s messageId userId =
     length (filter (\<lambda>r. rd_messageId r = messageId \<and> rd_userId r = userId) (reads s))"

definition messagesOf :: "store \<Rightarrow> uuid \<Rightarrow> Message list" where
  "messagesOf s conversationId = filter (\<lambda>m. m_conversationId m = conversationId) (messages s)"


definition isForbidden :: "error + 'a \<Rightarrow> bool" where
  "isForbidden r = (case r of Inl (ForbiddenException _) \<Rightarrow> True | _ \<Rightarrow> False)"







definition demoHistory :: store where
  "demoHistory =
     \<lparr>users = [demoUser 1, demoUser 2],
      conversations = [demoConversation 5 DIRECT [1, 2]],
      admins = [],
      messages = [demoMessage 3 5 1 False 30, demoMessage 1 5 1 False 10,
                  demoMessage 4 5 2 True 25, demoMessage 2 5 2 False 20,
                  demoMessage 6 9 2 False 40],
      reactions = [],
      reads = []\<rparr>"

definition statusOf :: "store \<Rightarrow> uuid \<Rightarrow> UserStatus option" where
  "statusOf s userId = map_option u_status (find (\<lambda>x. u_id x = userId) (users s))"

definition demoGateway :: gateway where
  "demoGateway = \<lparr>connectedUsers = Map.empty, typingUsers = Map.empty,
                   clientUserId = Map.empty, clientRooms = (\<lambda>_. {})\<rparr>"

definition demoVerify :: "string \<Rightarrow> uuid option" where
  "demoVerify token = (if token = ''token-of-1'' then Some 1 else None)"

definition demoConnected :: "gateway \<times> store \<times> effect list" where
  "demoConnected =
     (case handleConnection demoGateway demoStore 11 (Some ''token-of-1'') demoVerify 100 of
        (g1, s1, _) \<Rightarrow> handleConnection g1 s1 12 (Some ''token-of-1'') demoVerify 101)"




section \<open>Auxiliary facts\<close>

lemma generated_greater: "x \<in> set ids \<Longrightarrow> x < generated ids"
proof -
  have acc: "a \<le> fold max xs a" for xs and a :: nat
    by (induction xs arbitrary: a) (auto intro: order_trans[OF max.cobounded2])
  have "y \<in> set xs \<Longrightarrow> y \<le> fold max xs a" for xs and y a :: nat
  proof (induction xs arbitrary: a)
    case Nil
    then show ?case by simp
  next
    case (Cons z zs)
    show ?case
    proof (cases "y = z")
      case True
      have "y \<le> max z a" using True by simp
      also have "\<dots> \<le> fold max zs (max z a)" by (rule acc)
      finally show ?thesis by simp
    next
      case False
      with Cons show ?thesis by simp
    qed
  qed
  moreover assume "x \<in> set ids"
  ultimately show ?thesis by (simp add: generated_def less_Suc_eq_le)
qed

lemma find_append:
  "find P (xs @ ys) = (case find P xs of None \<Rightarrow> find P ys | Some x \<Rightarrow> Some x)"
  by (induction xs) auto

lemma find_None_iff_all: "find P xs = None \<longleftrightarrow> (\<forall>x\<in>set xs. \<not> P x)"
  by (auto simp: find_None_iff)

lemma reactToMessage_add:
  assumes "find (\<lambda>x. m_id x = m) (messages s) \<noteq> None"
      and "\<forall>r\<in>set (reactions s). \<not> sameReaction m u (rt_emoji dto) r"
  shows "reactToMessage s m u dto t =
           (Inr (Some \<lparr>r_id = generated (map r_id (reactions s)), r_messageId = m,
                       r_userId = u, r_emoji = rt_emoji dto, r_createdAt = t\<rparr>),
            s\<lparr>reactions := reactions s @
                 [\<lparr>r_id = generated (map r_id (reactions s)), r_messageId = m,
                   r_userId = u, r_emoji = rt_emoji dto, r_createdAt = t\<rparr>]\<rparr>)"
proof -
  from assms(2) have "find (sameReaction m u (rt_emoji dto)) (reactions s) = None"
    by (simp add: find_None_iff_all)
  with assms(1) show ?thesis
    by (auto simp: reactToMessage_def Let_def)
qed

lemma reactToMessage_remove_fresh:
  assumes "find (\<lambda>x. m_id x = m) (messages s) \<noteq> None"
      and "\<forall>r\<in>set (reactions s). \<not> sameReaction m u (rt_emoji dto) r"
      and "sameReaction m u (rt_emoji dto) x" and "r_id x = generated (map r_id (reactions s))"
  shows "reactToMessage (s\<lparr>reactions := reactions s @ [x]\<rparr>) m u dto t = (Inr None, s)"
proof -
  have f: "find (sameReaction m u (rt_emoji dto)) (reactions s @ [x]) = Some x"
    using assms(2,3) by (simp add: find_append find_None_iff_all[THEN iffD2])
  have "\<forall>r\<in>set (reactions s). r_id r \<noteq> r_id x"
    using generated_greater[of _ "map r_id (reactions s)"] assms(4) by fastforce
  then have "filter (\<lambda>r. r_id r \<noteq> r_id x) (reactions s @ [x]) = reactions s"
    by (simp add: filter_id_conv)
  with f assms(1) show ?thesis
    by (auto simp: reactToMessage_def)
qed

lemma find_Some_ex: "(\<exists>x\<in>set xs. P x) \<Longrightarrow> find P xs \<noteq> None"
  by (auto simp: find_None_iff)

lemma reactToMessage_atMostOne:
  assumes "countReactions s m' u' e' \<le> 1"
  shows "countReactions (snd (reactToMessage s m u dto t)) m' u' e' \<le> 1"
proof (cases "find (\<lambda>x. m_id x = m) (messages s)")
  case None
  with assms show ?thesis by (simp add: reactToMessage_def)
next
  case (Some msg)
  show ?thesis
  proof (cases "find (sameReaction m u (rt_emoji dto)) (reactions s)")
    case (Some ex)
    have "length (filter (sameReaction m' u' e') (filter (\<lambda>r. r_id r \<noteq> r_id ex) (reactions s)))
            \<le> length (filter (sameReaction m' u' e') (reactions s))"
      by (simp add: filter_filter conj_commute) (metis filter_filter length_filter_le)
    with assms Some \<open>find (\<lambda>x. m_id x = m) (messages s) = Some msg\<close> show ?thesis
      by (simp add: reactToMessage_def countReactions_def)
  next
    case None
    then have no: "filter (sameReaction m u (rt_emoji dto)) (reactions s) = []"
      by (auto simp: find_None_iff filter_empty_conv)
    show ?thesis
    proof (cases "m' = m \<and> u' = u \<and> e' = rt_emoji dto")
      case True
      with no None \<open>find (\<lambda>x. m_id x = m) (messages s) = Some msg\<close> show ?thesis
        by (simp add: reactToMessage_def countReactions_def Let_def sameReaction_def)
    next
      case False
      with assms None \<open>find (\<lambda>x. m_id x = m) (messages s) = Some msg\<close> show ?thesis
        by (auto simp: reactToMessage_def countReactions_def Let_def sameReaction_def)
    qed
  qed
qed

section \<open>reactToMessage is a toggle\<close>

text \<open>
  Claim C2. For a message that exists and a (message, user, emoji) that has no reaction
  row, the first \<open>reactToMessage\<close> creates the reaction and returns it, the second
  deletes it again and returns null, leaving the store exactly as it was before the
  first call, and the third returns a reaction again. The number of rows of that
  (message, user, emoji) is 0, 1, 0, 1 along the way: never more than one.
\<close>

theorem reactToMessage_toggle:
  assumes ex: "\<exists>x\<in>set (messages s). m_id x = m"
      and none: "countReactions s m u (rt_emoji dto) = 0"
  shows "\<exists>x1 x3 s1 s3.
           reactToMessage s m u dto t1 = (Inr (Some x1), s1) \<and>
           sameReaction m u (rt_emoji dto) x1 \<and>
           countReactions s1 m u (rt_emoji dto) = 1 \<and>
           reactToMessage s1 m u dto t2 = (Inr None, s) \<and>
           reactToMessage s m u dto t3 = (Inr (Some x3), s3) \<and>
           sameReaction m u (rt_emoji dto) x3 \<and>
           countReactions s3 m u (rt_emoji dto) = 1"
proof -
  let ?e = "rt_emoji dto"
  let ?new = "\<lambda>t. \<lparr>r_id = generated (map r_id (reactions s)), r_messageId = m,
                    r_userId = u, r_emoji = ?e, r_createdAt = t\<rparr>"
  have found: "find (\<lambda>x. m_id x = m) (messages s) \<noteq> None"
    using ex by (rule find_Some_ex)
  have absent: "\<forall>r\<in>set (reactions s). \<not> sameReaction m u ?e r"
    using none by (simp add: countReactions_def filter_empty_conv)
  have add: "reactToMessage s m u dto t =
               (Inr (Some (?new t)), s\<lparr>reactions := reactions s @ [?new t]\<rparr>)" for t
    using found absent by (rule reactToMessage_add)
  have same: "sameReaction m u ?e (?new t)" for t
    by (simp add: sameReaction_def)
  have one: "countReactions (s\<lparr>reactions := reactions s @ [?new t]\<rparr>) m u ?e = 1" for t
    using none same[of t] by (simp add: countReactions_def)
  have remove: "reactToMessage (s\<lparr>reactions := reactions s @ [?new t1]\<rparr>) m u dto t2
                  = (Inr None, s)"
    using found absent same by (rule reactToMessage_remove_fresh) simp
  from add[of t1] add[of t3] same one remove show ?thesis by blast
qed

theorem reactToMessage_toggle_witness:
  "(\<exists>x\<in>set (messages demoStore). m_id x = 1) \<and>
   countReactions demoStore 1 2 (rt_emoji \<lparr>rt_emoji = ''+1''\<rparr>) = 0 \<and>
   (\<exists>x1 x3 s1 s3.
      reactToMessage demoStore 1 2 \<lparr>rt_emoji = ''+1''\<rparr> 40 = (Inr (Some x1), s1) \<and>
      sameReaction 1 2 ''+1'' x1 \<and>
      countReactions s1 1 2 ''+1'' = 1 \<and>
      reactToMessage s1 1 2 \<lparr>rt_emoji = ''+1''\<rparr> 41 = (Inr None, demoStore) \<and>
      reactToMessage demoStore 1 2 \<lparr>rt_emoji = ''+1''\<rparr> 42 = (Inr (Some x3), s3) \<and>
      sameReaction 1 2 ''+1'' x3 \<and>
      countReactions s3 1 2 ''+1'' = 1)"
proof -
  have a: "\<exists>x\<in>set (messages demoStore). m_id x = 1"
    by (simp add: demoStore_def demoMessage_def)
  have b: "countReactions demoStore 1 2 (rt_emoji \<lparr>rt_emoji = ''+1''\<rparr>) = 0"
    by (simp add: demoStore_def countReactions_def)
  from reactToMessage_toggle[OF a b, of 40 41 42] a b show ?thesis by simp
qed

section \<open>markAsRead\<close>

lemma markOne_cases:
  "markOne u t m s =
     (if hasRead s (m_id m) u then s
      else s\<lparr>reads := reads s @ [\<lparr>rd_id = generated (map rd_id (reads s)),
                                   rd_messageId = m_id m, rd_userId = u, rd_readAt = t\<rparr>]\<rparr>)"
  by (auto simp: markOne_def hasRead_def find_None_iff split: option.splits dest: find_Some_iff[THEN iffD1])

lemma hasRead_markOne_self: "hasRead (markOne u t m s) (m_id m) u"
  by (simp add: markOne_cases) (simp add: hasRead_def)

lemma hasRead_markOne_mono: "hasRead s k v \<Longrightarrow> hasRead (markOne u t m s) k v"
  by (simp add: markOne_cases) (auto simp: hasRead_def)

lemma hasRead_fold_mono: "hasRead s k v \<Longrightarrow> hasRead (fold (markOne u t) ms s) k v"
  by (induction ms arbitrary: s) (simp_all add: hasRead_markOne_mono)

lemma hasRead_fold: "m \<in> set ms \<Longrightarrow> hasRead (fold (markOne u t) ms s) (m_id m) u"
proof (induction ms arbitrary: s)
  case Nil
  then show ?case by simp
next
  case (Cons a ms)
  show ?case
  proof (cases "m = a")
    case True
    then show ?thesis by (simp add: hasRead_fold_mono hasRead_markOne_self)
  next
    case False
    with Cons show ?thesis by simp
  qed
qed

lemma fold_markOne_fixed:
  "\<forall>m\<in>set ms. hasRead s (m_id m) u \<Longrightarrow> fold (markOne u t) ms s = s"
  by (induction ms) (simp_all add: markOne_cases)

lemma messages_markOne: "messages (markOne u t m s) = messages s"
  by (simp add: markOne_cases)

lemma messages_fold_markOne: "messages (fold (markOne u t) ms s) = messages s"
  by (induction ms arbitrary: s) (simp_all add: messages_markOne)

lemma set_newestFirst: "set (newestFirst ms) = set ms"
  by (simp add: newestFirst_def)

lemma fold_markOne_reads:
  "\<exists>new. fold (markOne u t) ms s = s\<lparr>reads := reads s @ new\<rparr> \<and>
         (\<forall>r\<in>set new. rd_userId r = u \<and> rd_messageId r \<in> m_id ` set ms \<and>
                        \<not> hasRead s (rd_messageId r) u) \<and>
         distinct (map rd_messageId new)"
proof (induction ms arbitrary: s)
  case Nil
  have "s = s\<lparr>reads := reads s @ []\<rparr>" by simp
  then show ?case by (intro exI[of _ "[]"]) simp
next
  case (Cons m ms)
  show ?case
  proof (cases "hasRead s (m_id m) u")
    case True
    then have "fold (markOne u t) (m # ms) s = fold (markOne u t) ms s"
      by (simp add: markOne_cases)
    with Cons[of s] show ?thesis by auto
  next
    case False
    define r0 where "r0 = \<lparr>rd_id = generated (map rd_id (reads s)),
                           rd_messageId = m_id m, rd_userId = u, rd_readAt = t\<rparr>"
    define s' where "s' = s\<lparr>reads := reads s @ [r0]\<rparr>"
    have step: "markOne u t m s = s'"
      using False by (simp add: markOne_cases s'_def r0_def)
    from Cons[of s'] obtain new where
      eq: "fold (markOne u t) ms s' = s'\<lparr>reads := reads s' @ new\<rparr>" and
      each: "\<forall>r\<in>set new. rd_userId r = u \<and> rd_messageId r \<in> m_id ` set ms \<and>
                            \<not> hasRead s' (rd_messageId r) u" and
      dist: "distinct (map rd_messageId new)"
      by blast
    have h0: "hasRead s' (m_id m) u"
      by (simp add: hasRead_def s'_def r0_def)
    have mono: "hasRead s k u \<Longrightarrow> hasRead s' k u" for k
      by (auto simp: hasRead_def s'_def)
    have "fold (markOne u t) (m # ms) s = s\<lparr>reads := reads s @ (r0 # new)\<rparr>"
      using eq step by (simp add: s'_def)
    moreover have "\<forall>r\<in>set (r0 # new). rd_userId r = u \<and> rd_messageId r \<in> m_id ` set (m # ms) \<and>
                            \<not> hasRead s (rd_messageId r) u"
      using each False mono by (auto simp: r0_def)
    moreover have "distinct (map rd_messageId (r0 # new))"
      using dist each h0 by (auto simp: r0_def)
    ultimately show ?thesis by blast
  qed
qed

lemma distinct_map_filter_le1:
  "distinct (map f xs) \<Longrightarrow> length (filter (\<lambda>x. f x = k) xs) \<le> Suc 0"
proof (induction xs)
  case Nil
  then show ?case by simp
next
  case (Cons a xs)
  show ?case
  proof (cases "f a = k")
    case True
    with Cons.prems have "k \<notin> f ` set xs" by simp
    then have "\<forall>x\<in>set xs. f x \<noteq> k" by blast
    then have "filter (\<lambda>x. f x = k) xs = []" by (simp add: filter_empty_conv)
    with True show ?thesis by simp
  next
    case False
    with Cons show ?thesis by simp
  qed
qed

lemma markAsRead_snd:
  "snd (markAsRead s c u t) = fold (markOne u t) (newestFirst (messagesOf s c)) s"
  by (simp add: markAsRead_def messagesOf_def Let_def)

lemma messagesOf_markAsRead: "messagesOf (snd (markAsRead s c u t)) c = messagesOf s c"
  by (simp add: markAsRead_snd messagesOf_def messages_fold_markOne)

lemma markAsRead_inserted:
  "\<exists>new. snd (markAsRead s c u t) = s\<lparr>reads := reads s @ new\<rparr> \<and>
         (\<forall>r\<in>set new. rd_userId r = u \<and> (\<exists>m\<in>set (messagesOf s c). rd_messageId r = m_id m) \<and>
                        \<not> hasRead s (rd_messageId r) u) \<and>
         distinct (map rd_messageId new)"
proof -
  from fold_markOne_reads[of u t "newestFirst (messagesOf s c)" s]
  obtain new where
    eq: "fold (markOne u t) (newestFirst (messagesOf s c)) s = s\<lparr>reads := reads s @ new\<rparr>" and
    each: "\<forall>r\<in>set new. rd_userId r = u \<and>
              rd_messageId r \<in> m_id ` set (newestFirst (messagesOf s c)) \<and>
              \<not> hasRead s (rd_messageId r) u" and
    dist: "distinct (map rd_messageId new)"
    by blast
  from each have "\<forall>r\<in>set new. rd_userId r = u \<and>
      (\<exists>m\<in>set (messagesOf s c). rd_messageId r = m_id m) \<and> \<not> hasRead s (rd_messageId r) u"
    by (auto simp: set_newestFirst)
  with eq dist show ?thesis by (auto simp: markAsRead_snd)
qed

text \<open>
  Claim C3. A second \<open>markAsRead\<close> for the same conversation and user changes
  nothing: it returns normally and the store, hence the set of read markers, is the
  one the first call left. What the first call does is append markers \<open>new\<close>, each
  for the user and for a message of the conversation that had no marker of this user,
  and no two of them for the same message.
\<close>

theorem markAsRead_idempotent:
  "markAsRead (snd (markAsRead s c u t1)) c u t2 = (Inr (), snd (markAsRead s c u t1)) \<and>
   (\<exists>new. snd (markAsRead s c u t1) = s\<lparr>reads := reads s @ new\<rparr> \<and>
          (\<forall>r\<in>set new. rd_userId r = u \<and>
                         (\<exists>m\<in>set (messagesOf s c). rd_messageId r = m_id m) \<and>
                         \<not> hasRead s (rd_messageId r) u) \<and>
          distinct (map rd_messageId new))"
proof
  let ?s1 = "snd (markAsRead s c u t1)"
  have "\<forall>m\<in>set (newestFirst (messagesOf ?s1 c)). hasRead ?s1 (m_id m) u"
    by (simp add: messagesOf_markAsRead) (simp add: markAsRead_snd hasRead_fold)
  then have "fold (markOne u t2) (newestFirst (messagesOf ?s1 c)) ?s1 = ?s1"
    by (rule fold_markOne_fixed)
  then have "snd (markAsRead ?s1 c u t2) = ?s1"
    by (simp only: markAsRead_snd)
  moreover have "fst (markAsRead ?s1 c u t2) = Inr ()"
    by (simp add: markAsRead_def Let_def)
  ultimately show "markAsRead ?s1 c u t2 = (Inr (), ?s1)"
    by (metis prod.collapse)
next
  show "\<exists>new. snd (markAsRead s c u t1) = s\<lparr>reads := reads s @ new\<rparr> \<and>
          (\<forall>r\<in>set new. rd_userId r = u \<and>
                         (\<exists>m\<in>set (messagesOf s c). rd_messageId r = m_id m) \<and>
                         \<not> hasRead s (rd_messageId r) u) \<and>
          distinct (map rd_messageId new)"
    by (rule markAsRead_inserted)
qed

theorem markAsRead_idempotent_witness:
  "(markAsRead (snd (markAsRead demoStore 1 3 50)) 1 3 51
      = (Inr (), snd (markAsRead demoStore 1 3 50)) \<and>
    (\<exists>new. snd (markAsRead demoStore 1 3 50) = demoStore\<lparr>reads := reads demoStore @ new\<rparr> \<and>
          (\<forall>r\<in>set new. rd_userId r = 3 \<and>
                         (\<exists>m\<in>set (messagesOf demoStore 1). rd_messageId r = m_id m) \<and>
                         \<not> hasRead demoStore (rd_messageId r) 3) \<and>
          distinct (map rd_messageId new))) \<and>
   map rd_messageId (reads (snd (markAsRead demoStore 1 3 50))) = [2, 1]"
proof -
  have "map rd_messageId (reads (snd (markAsRead demoStore 1 3 50))) = [2, 1]"
    by (simp add: markAsRead_def demoStore_def demoMessage_def newestFirst_def markOne_def)
  with markAsRead_idempotent[of demoStore 1 3 50 51] show ?thesis by simp
qed

text \<open>
  Claim C10. \<open>markAsRead\<close> never throws, whoever the user is, and afterwards every
  message of the conversation has a marker of the user: the statement ranges over all
  messages of the conversation, soft-deleted or not, and asks nothing about the user's
  membership. A message that had no marker of the user has exactly one afterwards.
\<close>

theorem markAsRead_unchecked:
  "fst (markAsRead s c u t) = Inr () \<and>
   (\<forall>m\<in>set (messages s). m_conversationId m = c \<longrightarrow>
      hasRead (snd (markAsRead s c u t)) (m_id m) u \<and>
      (\<not> hasRead s (m_id m) u \<longrightarrow> countReads (snd (markAsRead s c u t)) (m_id m) u = 1))"
proof (intro conjI ballI impI)
  show "fst (markAsRead s c u t) = Inr ()"
    by (simp add: markAsRead_def Let_def)
next
  fix m assume m: "m \<in> set (messages s)" "m_conversationId m = c"
  then have "m \<in> set (newestFirst (messagesOf s c))"
    by (simp add: set_newestFirst messagesOf_def)
  then show marked: "hasRead (snd (markAsRead s c u t)) (m_id m) u"
    by (simp add: markAsRead_snd hasRead_fold)
  assume lacking: "\<not> hasRead s (m_id m) u"
  from markAsRead_inserted[of s c u t] obtain new where
    eq: "snd (markAsRead s c u t) = s\<lparr>reads := reads s @ new\<rparr>" and
    dist: "distinct (map rd_messageId new)"
    by blast
  let ?P = "\<lambda>r. rd_messageId r = m_id m \<and> rd_userId r = u"
  from lacking have old: "filter ?P (reads s) = []"
    by (auto simp: hasRead_def filter_empty_conv)
  from marked lacking eq have "\<exists>r\<in>set new. ?P r"
    by (auto simp: hasRead_def)
  then have "filter ?P new \<noteq> []"
    by (simp add: filter_empty_conv)
  then have "1 \<le> length (filter ?P new)"
    by (cases "filter ?P new") simp_all
  moreover have "length (filter ?P new) \<le> length (filter (\<lambda>r. rd_messageId r = m_id m) new)"
  proof -
    have "filter ?P new =
            filter (\<lambda>r. rd_userId r = u) (filter (\<lambda>r. rd_messageId r = m_id m) new)"
      by (simp add: conj_commute)
    then show ?thesis by (simp only: length_filter_le)
  qed
  moreover have "length (filter (\<lambda>r. rd_messageId r = m_id m) new) \<le> Suc 0"
    using dist by (rule distinct_map_filter_le1)
  ultimately have "length (filter ?P new) = 1" by simp
  with old eq show "countReads (snd (markAsRead s c u t)) (m_id m) u = 1"
    by (simp add: countReads_def)
qed

theorem markAsRead_unchecked_witness:
  "demoMessage 2 1 2 True 20 \<in> set (messages demoStore) \<and>
   m_isDeleted (demoMessage 2 1 2 True 20) \<and>
   \<not> hasRead demoStore 2 3 \<and>
   filter (\<lambda>c. 3 \<in> set (c_participants c)) (conversations demoStore) = [] \<and>
   fst (markAsRead demoStore 1 3 50) = Inr () \<and>
   hasRead (snd (markAsRead demoStore 1 3 50)) 2 3 \<and>
   countReads (snd (markAsRead demoStore 1 3 50)) 2 3 = 1"
proof -
  have a: "demoMessage 2 1 2 True 20 \<in> set (messages demoStore)"
    by (simp add: demoStore_def)
  have b: "m_conversationId (demoMessage 2 1 2 True 20) = 1"
          "m_id (demoMessage 2 1 2 True 20) = 2" "m_isDeleted (demoMessage 2 1 2 True 20)"
    by (simp_all add: demoMessage_def)
  have c: "\<not> hasRead demoStore 2 3"
    by (simp add: hasRead_def demoStore_def)
  have d: "filter (\<lambda>c. 3 \<in> set (c_participants c)) (conversations demoStore) = []"
    by (simp add: demoStore_def demoConversation_def)
  from markAsRead_unchecked[of demoStore 1 3 50] a b c
  have "fst (markAsRead demoStore 1 3 50) = Inr () \<and>
        hasRead (snd (markAsRead demoStore 1 3 50)) 2 3 \<and>
        countReads (snd (markAsRead demoStore 1 3 50)) 2 3 = 1"
    by fastforce
  with a b c d show ?thesis by simp
qed

section \<open>reactToMessage checks the message only\<close>

text \<open>
  Claim C9. With no message of that id the call throws NotFound and leaves the store
  as it is. With one, soft-deleted or not, and for any user, participant of the
  message's conversation or not, it returns normally and toggles: it appends the
  reaction when (message, user, emoji) has none, and removes the one it finds
  otherwise. It throws if and only if no message has that id.
\<close>

theorem reactToMessage_unchecked:
  "((\<forall>x\<in>set (messages s). m_id x \<noteq> m) \<longrightarrow>
      reactToMessage s m u dto t = (Inl (NotFoundException ''Message not found''), s)) \<and>
   ((\<exists>x\<in>set (messages s). m_id x = m) \<longrightarrow>
      (if countReactions s m u (rt_emoji dto) = 0
       then \<exists>x. reactToMessage s m u dto t = (Inr (Some x), s\<lparr>reactions := reactions s @ [x]\<rparr>) \<and>
                sameReaction m u (rt_emoji dto) x
       else \<exists>x\<in>set (reactions s). sameReaction m u (rt_emoji dto) x \<and>
              reactToMessage s m u dto t =
                (Inr None, s\<lparr>reactions := filter (\<lambda>r. r_id r \<noteq> r_id x) (reactions s)\<rparr>))) \<and>
   ((\<exists>e. fst (reactToMessage s m u dto t) = Inl e) \<longleftrightarrow> (\<forall>x\<in>set (messages s). m_id x \<noteq> m))"
proof -
  have none: "reactToMessage s m u dto t = (Inl (NotFoundException ''Message not found''), s)"
    if "\<forall>x\<in>set (messages s). m_id x \<noteq> m"
  proof -
    from that have "find (\<lambda>x. m_id x = m) (messages s) = None"
      by (simp add: find_None_iff_all)
    then show ?thesis by (simp add: reactToMessage_def)
  qed
  have some: "if countReactions s m u (rt_emoji dto) = 0
       then \<exists>x. reactToMessage s m u dto t = (Inr (Some x), s\<lparr>reactions := reactions s @ [x]\<rparr>) \<and>
                sameReaction m u (rt_emoji dto) x
       else \<exists>x\<in>set (reactions s). sameReaction m u (rt_emoji dto) x \<and>
              reactToMessage s m u dto t =
                (Inr None, s\<lparr>reactions := filter (\<lambda>r. r_id r \<noteq> r_id x) (reactions s)\<rparr>)"
    if ex: "\<exists>x\<in>set (messages s). m_id x = m"
  proof (cases "countReactions s m u (rt_emoji dto) = 0")
    case True
    then have "\<forall>r\<in>set (reactions s). \<not> sameReaction m u (rt_emoji dto) r"
      by (simp add: countReactions_def filter_empty_conv)
    with find_Some_ex[OF ex] have "reactToMessage s m u dto t =
           (Inr (Some \<lparr>r_id = generated (map r_id (reactions s)), r_messageId = m,
                       r_userId = u, r_emoji = rt_emoji dto, r_createdAt = t\<rparr>),
            s\<lparr>reactions := reactions s @
                 [\<lparr>r_id = generated (map r_id (reactions s)), r_messageId = m,
                   r_userId = u, r_emoji = rt_emoji dto, r_createdAt = t\<rparr>]\<rparr>)"
      by (rule reactToMessage_add)
    moreover have "sameReaction m u (rt_emoji dto)
        \<lparr>r_id = generated (map r_id (reactions s)), r_messageId = m,
                       r_userId = u, r_emoji = rt_emoji dto, r_createdAt = t\<rparr>"
      by (simp add: sameReaction_def)
    ultimately show ?thesis using True by auto
  next
    case False
    then have "find (sameReaction m u (rt_emoji dto)) (reactions s) \<noteq> None"
      by (auto simp: countReactions_def find_None_iff filter_empty_conv)
    then obtain x where x: "find (sameReaction m u (rt_emoji dto)) (reactions s) = Some x"
      by auto
    then have "x \<in> set (reactions s)" "sameReaction m u (rt_emoji dto) x"
      by (auto simp: find_Some_iff)
    moreover from find_Some_ex[OF ex] x have "reactToMessage s m u dto t =
        (Inr None, s\<lparr>reactions := filter (\<lambda>r. r_id r \<noteq> r_id x) (reactions s)\<rparr>)"
      by (auto simp: reactToMessage_def)
    ultimately show ?thesis using False by auto
  qed
  have "(\<exists>e. fst (reactToMessage s m u dto t) = Inl e) \<longleftrightarrow> (\<forall>x\<in>set (messages s). m_id x \<noteq> m)"
  proof (cases "\<exists>x\<in>set (messages s). m_id x = m")
    case True
    from some[OF True] have "\<exists>r. fst (reactToMessage s m u dto t) = Inr r"
      by (auto split: if_splits)
    with True show ?thesis by auto
  next
    case False
    then have "\<forall>x\<in>set (messages s). m_id x \<noteq> m" by simp
    from none[OF this] this show ?thesis by simp
  qed
  with none some show ?thesis by blast
qed

theorem reactToMessage_unchecked_witness:
  "(\<exists>x\<in>set (messages demoStore). m_id x = 2 \<and> m_isDeleted x) \<and>
   filter (\<lambda>c. 3 \<in> set (c_participants c)) (conversations demoStore) = [] \<and>
   (\<exists>x\<in>set (users demoStore). u_id x = 3) \<and>
   countReactions demoStore 2 3 ''ok'' = 0 \<and>
   (\<exists>x. reactToMessage demoStore 2 3 \<lparr>rt_emoji = ''ok''\<rparr> 60 =
          (Inr (Some x), demoStore\<lparr>reactions := reactions demoStore @ [x]\<rparr>) \<and>
        sameReaction 2 3 ''ok'' x) \<and>
   filter (\<lambda>x. m_id x = 7) (messages demoStore) = [] \<and>
   reactToMessage demoStore 7 3 \<lparr>rt_emoji = ''ok''\<rparr> 60 =
     (Inl (NotFoundException ''Message not found''), demoStore)"
proof -
  have a: "\<exists>x\<in>set (messages demoStore). m_id x = 2 \<and> m_isDeleted x"
    by (simp add: demoStore_def demoMessage_def)
  then have a': "\<exists>x\<in>set (messages demoStore). m_id x = 2" by blast
  have b: "filter (\<lambda>c. 3 \<in> set (c_participants c)) (conversations demoStore) = []"
    by (simp add: demoStore_def demoConversation_def)
  have c: "\<exists>x\<in>set (users demoStore). u_id x = 3"
    by (simp add: demoStore_def demoUser_def)
  have d: "countReactions demoStore 2 3 ''ok'' = 0"
    by (simp add: demoStore_def countReactions_def)
  have e: "filter (\<lambda>x. m_id x = 7) (messages demoStore) = []"
    by (simp add: demoStore_def demoMessage_def)
  then have e': "\<forall>x\<in>set (messages demoStore). m_id x \<noteq> 7"
    by (simp add: filter_empty_conv)
  from reactToMessage_unchecked[of demoStore 2 3 "\<lparr>rt_emoji = ''ok''\<rparr>" 60] a' d
  have f: "\<exists>x. reactToMessage demoStore 2 3 \<lparr>rt_emoji = ''ok''\<rparr> 60 =
          (Inr (Some x), demoStore\<lparr>reactions := reactions demoStore @ [x]\<rparr>) \<and>
        sameReaction 2 3 ''ok'' x"
    by simp
  from reactToMessage_unchecked[of demoStore 7 3 "\<lparr>rt_emoji = ''ok''\<rparr>" 60] e'
  have g: "reactToMessage demoStore 7 3 \<lparr>rt_emoji = ''ok''\<rparr> 60 =
     (Inl (NotFoundException ''Message not found''), demoStore)"
    by blast
  from a b c d e f g show ?thesis by blast
qed

section \<open>editMessage\<close>

lemma find_map_preserving:
  "(\<And>x. P (f x) = P x) \<Longrightarrow> find P (map f xs) = map_option f (find P xs)"
  by (induction xs) auto

lemma find_Some_mem: "find P xs = Some x \<Longrightarrow> x \<in> set xs \<and> P x"
  by (induction xs) (auto split: if_splits)

lemma editMessage_denied:
  assumes "\<forall>x\<in>set (messages s). m_id x = m \<longrightarrow> m_senderId x \<noteq> u"
  shows "editMessage s m u content t =
           (Inl (NotFoundException ''Message not found or access denied''), s)"
proof -
  from assms have "find (\<lambda>x. m_id x = m \<and> m_senderId x = u) (messages s) = None"
    by (auto simp: find_None_iff_all)
  then show ?thesis by (simp add: editMessage_def)
qed

lemma editMessage_allowed:
  assumes "\<exists>x\<in>set (messages s). m_id x = m \<and> m_senderId x = u"
  shows "\<exists>x' s'. editMessage s m u content t =
            (Inr (Some (x', find (\<lambda>v. u_id v = m_senderId x') (users s))), s') \<and>
          m_id x' = m \<and> m_content x' = content \<and> m_isEdited x' \<and> m_editedAt x' = Some t \<and>
          x' \<in> set (messages s') \<and>
          s' = s\<lparr>messages := map (\<lambda>x. if m_id x = m
                                         then x\<lparr>m_content := content, m_isEdited := True,
                                                m_editedAt := Some t\<rparr>
                                         else x) (messages s)\<rparr>"
proof -
  let ?f = "\<lambda>x. if m_id x = m
                 then x\<lparr>m_content := content, m_isEdited := True, m_editedAt := Some t\<rparr>
                 else x"
  let ?s' = "s\<lparr>messages := map ?f (messages s)\<rparr>"
  from assms obtain own where own: "find (\<lambda>x. m_id x = m \<and> m_senderId x = u) (messages s) = Some own"
    using find_Some_ex[of "messages s" "\<lambda>x. m_id x = m \<and> m_senderId x = u"] by auto
  from assms have "find (\<lambda>x. m_id x = m) (messages s) \<noteq> None"
    by (intro find_Some_ex) auto
  then obtain x where x: "find (\<lambda>x. m_id x = m) (messages s) = Some x" by auto
  have "find (\<lambda>x. m_id x = m) (map ?f (messages s)) = map_option ?f (find (\<lambda>x. m_id x = m) (messages s))"
    by (rule find_map_preserving) simp
  with x have found: "find (\<lambda>x. m_id x = m) (messages ?s') = Some (?f x)" by simp
  from x have xm: "x \<in> set (messages s)" "m_id x = m"
    using find_Some_mem[of "\<lambda>x. m_id x = m" "messages s" x] by auto
  have "editMessage s m u content t =
          (Inr (Some (?f x, find (\<lambda>v. u_id v = m_senderId (?f x)) (users s))), ?s')"
    using own found by (simp add: editMessage_def withSender_def Let_def)
  moreover have "m_id (?f x) = m" "m_content (?f x) = content" "m_isEdited (?f x)"
                "m_editedAt (?f x) = Some t"
    using xm by simp_all
  moreover have "?f x \<in> set (messages ?s')" using xm by simp
  ultimately show ?thesis by blast
qed

text \<open>
  Claim C6. When no message with the id has the requester as its sender, the call
  throws NotFound, not Forbidden, and writes nothing; this includes a message that
  exists and was sent by someone else. When the requester sent a message with the id,
  the call sets the content, the edited flag and the edited timestamp on it and returns
  the stored message together with the user row of its sender. The call returns
  normally exactly in the second case.
\<close>

theorem editMessage_sender_only:
  "((\<forall>x\<in>set (messages s). m_id x = m \<longrightarrow> m_senderId x \<noteq> u) \<longrightarrow>
      editMessage s m u content t =
        (Inl (NotFoundException ''Message not found or access denied''), s)) \<and>
   ((\<exists>x\<in>set (messages s). m_id x = m \<and> m_senderId x = u) \<longrightarrow>
      (\<exists>x' s'. editMessage s m u content t =
                 (Inr (Some (x', find (\<lambda>v. u_id v = m_senderId x') (users s))), s') \<and>
               m_id x' = m \<and> m_content x' = content \<and> m_isEdited x' \<and>
               m_editedAt x' = Some t \<and> x' \<in> set (messages s') \<and>
               s' = s\<lparr>messages := map (\<lambda>x. if m_id x = m
                                         then x\<lparr>m_content := content, m_isEdited := True,
                                                m_editedAt := Some t\<rparr>
                                         else x) (messages s)\<rparr>)) \<and>
   (\<not> isl (fst (editMessage s m u content t)) \<longleftrightarrow>
      (\<exists>x\<in>set (messages s). m_id x = m \<and> m_senderId x = u))"
proof (intro conjI impI)
  assume "\<forall>x\<in>set (messages s). m_id x = m \<longrightarrow> m_senderId x \<noteq> u"
  then show "editMessage s m u content t =
        (Inl (NotFoundException ''Message not found or access denied''), s)"
    by (rule editMessage_denied)
next
  assume "\<exists>x\<in>set (messages s). m_id x = m \<and> m_senderId x = u"
  then show "\<exists>x' s'. editMessage s m u content t =
                 (Inr (Some (x', find (\<lambda>v. u_id v = m_senderId x') (users s))), s') \<and>
               m_id x' = m \<and> m_content x' = content \<and> m_isEdited x' \<and>
               m_editedAt x' = Some t \<and> x' \<in> set (messages s') \<and>
               s' = s\<lparr>messages := map (\<lambda>x. if m_id x = m
                                         then x\<lparr>m_content := content, m_isEdited := True,
                                                m_editedAt := Some t\<rparr>
                                         else x) (messages s)\<rparr>"
    by (rule editMessage_allowed)
next
  show "\<not> isl (fst (editMessage s m u content t)) \<longleftrightarrow>
      (\<exists>x\<in>set (messages s). m_id x = m \<and> m_senderId x = u)"
  proof (cases "\<exists>x\<in>set (messages s). m_id x = m \<and> m_senderId x = u")
    case True
    from editMessage_allowed[OF True, of content t] True show ?thesis by auto
  next
    case False
    then have "\<forall>x\<in>set (messages s). m_id x = m \<longrightarrow> m_senderId x \<noteq> u" by blast
    from editMessage_denied[OF this, of content t] False show ?thesis by simp
  qed
qed

theorem editMessage_sender_only_witness:
  "(\<exists>x\<in>set (messages demoStore). m_id x = 1) \<and>
   filter (\<lambda>x. m_id x = 1 \<and> m_senderId x = 2) (messages demoStore) = [] \<and>
   editMessage demoStore 1 2 ''edited'' 70 =
     (Inl (NotFoundException ''Message not found or access denied''), demoStore) \<and>
   (\<exists>x\<in>set (messages demoStore). m_id x = 1 \<and> m_senderId x = 1) \<and>
   (\<exists>x' s'. editMessage demoStore 1 1 ''edited'' 70 =
              (Inr (Some (x', Some (demoUser 1))), s') \<and>
            m_id x' = 1 \<and> m_content x' = ''edited'' \<and> m_isEdited x' \<and>
            m_editedAt x' = Some 70 \<and> x' \<in> set (messages s'))"
proof -
  have a: "\<exists>x\<in>set (messages demoStore). m_id x = 1"
    by (simp add: demoStore_def demoMessage_def)
  have b: "filter (\<lambda>x. m_id x = 1 \<and> m_senderId x = 2) (messages demoStore) = []"
    by (simp add: demoStore_def demoMessage_def)
  then have b': "\<forall>x\<in>set (messages demoStore). m_id x = 1 \<longrightarrow> m_senderId x \<noteq> 2"
    by (simp add: filter_empty_conv)
  have c: "\<exists>x\<in>set (messages demoStore). m_id x = 1 \<and> m_senderId x = 1"
    by (simp add: demoStore_def demoMessage_def)
  from editMessage_sender_only[of demoStore 1 2 "''edited''" 70] b'
  have d: "editMessage demoStore 1 2 ''edited'' 70 =
     (Inl (NotFoundException ''Message not found or access denied''), demoStore)"
    by blast
  from editMessage_sender_only[of demoStore 1 1 "''edited''" 70] c
  obtain x' s' where e: "editMessage demoStore 1 1 ''edited'' 70 =
              (Inr (Some (x', find (\<lambda>v. u_id v = m_senderId x') (users demoStore))), s')"
            "m_id x' = 1" "m_content x' = ''edited''" "m_isEdited x'"
            "m_editedAt x' = Some 70" "x' \<in> set (messages s')"
    by blast
  have "fst (editMessage demoStore 1 1 ''edited'' 70)
          = Inr (Some (demoMessage 1 1 1 False 10
                        \<lparr>m_content := ''edited'', m_isEdited := True, m_editedAt := Some 70\<rparr>,
                       Some (demoUser 1)))"
    by (simp add: editMessage_def demoStore_def demoMessage_def demoUser_def withSender_def)
  then have "find (\<lambda>v. u_id v = m_senderId x') (users demoStore) = Some (demoUser 1)"
    unfolding e(1) fst_conv by blast
  with e have "\<exists>x' s'. editMessage demoStore 1 1 ''edited'' 70 =
              (Inr (Some (x', Some (demoUser 1))), s') \<and>
            m_id x' = 1 \<and> m_content x' = ''edited'' \<and> m_isEdited x' \<and>
            m_editedAt x' = Some 70 \<and> x' \<in> set (messages s')"
    by auto
  with a b c d show ?thesis by blast
qed

section \<open>The membership gate\<close>

lemma getConversationById_denied:
  assumes "\<forall>c\<in>set (conversations s). c_id c = k \<longrightarrow> u \<notin> set (c_participants c)"
  shows "getConversationById s k u =
           Inl (NotFoundException ''Conversation not found or access denied'')"
proof -
  from assms have "find (\<lambda>c. c_id c = k \<and> u \<in> set (c_participants c)) (conversations s) = None"
    by (auto simp: find_None_iff_all)
  then show ?thesis by (simp add: getConversationById_def)
qed

lemma getConversationById_found:
  assumes "getConversationById s k u = Inr c"
  shows "\<exists>c0\<in>set (conversations s). c_id c0 = k \<and> u \<in> set (c_participants c0) \<and>
           c = c0\<lparr>c_participants := filter (\<lambda>p. p = u) (c_participants c0)\<rparr>"
proof (cases "find (\<lambda>c. c_id c = k \<and> u \<in> set (c_participants c)) (conversations s)")
  case None
  with assms show ?thesis by (simp add: getConversationById_def)
next
  case (Some c0)
  from find_Some_mem[OF Some] Some assms show ?thesis
    by (auto simp: getConversationById_def)
qed

lemma getConversationById_member:
  assumes "\<exists>c\<in>set (conversations s). c_id c = k \<and> u \<in> set (c_participants c)"
  shows "\<exists>c. getConversationById s k u = Inr c"
proof -
  from assms have "find (\<lambda>c. c_id c = k \<and> u \<in> set (c_participants c)) (conversations s) \<noteq> None"
    by (rule find_Some_ex)
  then show ?thesis by (auto simp: getConversationById_def)
qed

text \<open>
  Claim C7, as the code has it. For a stored direct conversation (its id is a primary
  key: no other row has it), \<open>removeParticipant\<close> never succeeds and never writes.
  An actor who participates gets Forbidden. An actor who does not participate is
  stopped earlier, by \<open>getConversationById\<close>, and gets NotFound: the gate does not
  tell a conversation one has no access to from one that does not exist.
\<close>

theorem removeParticipant_direct:
  assumes "c \<in> set (conversations s)" and "c_type c = DIRECT"
      and "\<forall>c'\<in>set (conversations s). c_id c' = c_id c \<longrightarrow> c' = c"
  shows "removeParticipant s (c_id c) u p =
           (if u \<in> set (c_participants c)
            then Inl (ForbiddenException ''Cannot remove participants from direct conversations'')
            else Inl (NotFoundException ''Conversation not found or access denied''),
            s)"
proof (cases "u \<in> set (c_participants c)")
  case False
  with assms(3) have "\<forall>c'\<in>set (conversations s). c_id c' = c_id c \<longrightarrow> u \<notin> set (c_participants c')"
    by auto
  then have "getConversationById s (c_id c) u =
               Inl (NotFoundException ''Conversation not found or access denied'')"
    by (rule getConversationById_denied)
  with False show ?thesis by (simp add: removeParticipant_def)
next
  case True
  with assms(1) have "\<exists>c'\<in>set (conversations s). c_id c' = c_id c \<and> u \<in> set (c_participants c')"
    by auto
  then obtain e where e: "getConversationById s (c_id c) u = Inr e"
    using getConversationById_member by blast
  from getConversationById_found[OF e] assms(3) have "c_type e = c_type c" by auto
  with e True assms(2) show ?thesis by (simp add: removeParticipant_def)
qed

theorem removeParticipant_direct_witness:
  "demoConversation 1 DIRECT [1, 2] \<in> set (conversations demoStore) \<and>
   filter (\<lambda>c. c_id c = 1) (conversations demoStore) = [demoConversation 1 DIRECT [1, 2]] \<and>
   removeParticipant demoStore 1 1 (Uuid 2) =
     (Inl (ForbiddenException ''Cannot remove participants from direct conversations''),
      demoStore) \<and>
   removeParticipant demoStore 1 3 (Uuid 2) =
     (Inl (NotFoundException ''Conversation not found or access denied''), demoStore)"
proof -
  let ?c = "demoConversation 1 DIRECT [1, 2]"
  have a: "?c \<in> set (conversations demoStore)" by (simp add: demoStore_def)
  have b: "c_type ?c = DIRECT" by (simp add: demoConversation_def)
  have f: "filter (\<lambda>c. c_id c = 1) (conversations demoStore) = [?c]"
    by (simp add: demoStore_def demoConversation_def)
  have c: "\<forall>c'\<in>set (conversations demoStore). c_id c' = c_id ?c \<longrightarrow> c' = ?c"
    by (simp add: demoStore_def demoConversation_def)
  have d: "c_id ?c = 1" "c_participants ?c = [1, 2]" by (simp_all add: demoConversation_def)
  from removeParticipant_direct[OF a b c, of 1 "Uuid 2"] removeParticipant_direct[OF a b c, of 3 "Uuid 2"]
    a f d show ?thesis by simp
qed

text \<open>
  The claim as written asks for Forbidden whoever the actor is. User 3 does not
  participate in the direct conversation 1 of the example store, and gets NotFound.
\<close>

theorem removeParticipant_direct_counterexample:
  "demoConversation 1 DIRECT [1, 2] \<in> set (conversations demoStore) \<and>
   c_type (demoConversation 1 DIRECT [1, 2]) = DIRECT \<and>
   c_id (demoConversation 1 DIRECT [1, 2]) = 1 \<and>
   3 \<notin> set (c_participants (demoConversation 1 DIRECT [1, 2])) \<and>
   removeParticipant demoStore 1 3 (Uuid 2) =
     (Inl (NotFoundException ''Conversation not found or access denied''), demoStore) \<and>
   \<not> isForbidden (fst (removeParticipant demoStore 1 3 (Uuid 2)))"
  by (simp add: demoStore_def demoConversation_def removeParticipant_def
        getConversationById_def isForbidden_def)

section \<open>A failed call and the store\<close>





section \<open>getMessages\<close>



















text \<open>
  The window at its edges, on the example history (three non-deleted messages of
  conversation 5, stored as 3, 1, 2): a limit of 0 returns them all, a limit that does
  not fit 64 bits is rejected, and so is page 0.
\<close>

lemma getMessages_edges:
  "map (m_id \<circ> lm_message) (pg_messages (projr (getMessages demoHistory 5 1 1 0 m_id)))
     = [1, 2, 3]"
  "getMessages demoHistory 5 1 1 (2 ^ 63) m_id = Inl QueryFailedError"
  "getMessages demoHistory 5 1 0 2 m_id = Inl QueryFailedError"
  by (simp_all add: getMessages_def getConversationById_def demoHistory_def
        demoConversation_def demoMessage_def newestFirstBy_def pageOffset_def jsNumber_def
        jsNat_def doubleShift.simps loadRelations_def Let_def)

section \<open>Presence\<close>

lemma statusOf_updateStatus:
  assumes "statusOf s u \<noteq> None"
  shows "statusOf (updateStatus s u st t) u = Some st"
proof -
  let ?f = "\<lambda>x. if u_id x = u then x\<lparr>u_status := st, u_lastSeen := Some t\<rparr> else x"
  from assms obtain x where x: "find (\<lambda>x. u_id x = u) (users s) = Some x"
    by (auto simp: statusOf_def)
  then have "u_id x = u" using find_Some_mem[of "\<lambda>x. u_id x = u"] by blast
  moreover have "find (\<lambda>x. u_id x = u) (map ?f (users s)) =
                   map_option ?f (find (\<lambda>x. u_id x = u) (users s))"
    by (rule find_map_preserving) simp
  ultimately show ?thesis using x by (simp add: statusOf_def updateStatus_def)
qed

text \<open>
  A connection with a valid token of a stored user records the socket under the user,
  sets \<open>client.userId\<close> and writes the status ONLINE: this is how the state assumed
  below comes about.
\<close>

lemma handleConnection_registers:
  assumes "verify tok = Some u" and "find (\<lambda>x. u_id x = u) (users s) = Some user"
  shows "\<exists>g'. handleConnection g s client (Some tok) verify t =
                 (g', updateStatus s u ONLINE t, [BroadcastEmit client (UserOnline u user)]) \<and>
              connectedUsers g' u =
                Some (insert client (case connectedUsers g u of None \<Rightarrow> {} | Some S \<Rightarrow> S)) \<and>
              (\<forall>v. v \<noteq> u \<longrightarrow> connectedUsers g' v = connectedUsers g v) \<and>
              clientUserId g' = (clientUserId g)(client \<mapsto> u) \<and>
              statusOf (updateStatus s u ONLINE t) u = Some ONLINE"
proof -
  from assms(2) have uid: "u_id user = u"
    using find_Some_mem[of "\<lambda>x. u_id x = u"] by blast
  from assms(2) have "statusOf s u \<noteq> None" by (simp add: statusOf_def)
  then have "statusOf (updateStatus s u ONLINE t) u = Some ONLINE"
    by (rule statusOf_updateStatus)
  with assms uid show ?thesis
    by (simp add: handleConnection_def Let_def)
qed

lemma handleDisconnect_other_remains:
  assumes "clientUserId g a = Some u" and "connectedUsers g u = Some S" and "S - {a} \<noteq> {}"
  shows "handleDisconnect g s a t = (g\<lparr>connectedUsers := (connectedUsers g)(u \<mapsto> S - {a})\<rparr>, s, [])"
  using assms by (simp add: handleDisconnect_def Let_def)

lemma handleDisconnect_last:
  assumes "clientUserId g a = Some u" and "connectedUsers g u = Some S" and "S - {a} = {}"
  shows "handleDisconnect g s a t =
           (g\<lparr>connectedUsers := (connectedUsers g)(u := None)\<rparr>,
            updateStatus s u OFFLINE t, [BroadcastEmit a (UserOffline u)])"
  using assms by (simp add: handleDisconnect_def Let_def)

text \<open>
  Claim C5. A user has the two live connections \<open>a\<close> and \<open>b\<close> and the durable
  status ONLINE. Disconnecting \<open>a\<close> leaves the store as it is, so the status stays
  ONLINE, emits nothing and leaves \<open>b\<close> as the user's only connection. Disconnecting
  \<open>b\<close> then removes the user's entry from \<open>connectedUsers\<close>, writes the status
  OFFLINE and emits the one broadcast \<open>user:offline\<close>. Over the two disconnects there
  is one status write and one broadcast.
\<close>

theorem handleDisconnect_presence:
  assumes two: "connectedUsers g u = Some {a, b}" and ab: "a \<noteq> b"
      and ca: "clientUserId g a = Some u" and cb: "clientUserId g b = Some u"
      and online: "statusOf s u = Some ONLINE"
  shows "\<exists>g1 g2 s2.
           handleDisconnect g s a t1 = (g1, s, []) \<and>
           connectedUsers g1 u = Some {b} \<and>
           handleDisconnect g1 s b t2 = (g2, s2, [BroadcastEmit b (UserOffline u)]) \<and>
           connectedUsers g2 u = None \<and>
           s2 = updateStatus s u OFFLINE t2 \<and>
           statusOf s2 u = Some OFFLINE"
proof -
  let ?g1 = "g\<lparr>connectedUsers := (connectedUsers g)(u \<mapsto> {a, b} - {a})\<rparr>"
  let ?g2 = "?g1\<lparr>connectedUsers := (connectedUsers ?g1)(u := None)\<rparr>"
  have rest: "{a, b} - {a} = {b}" using ab by auto
  have first: "handleDisconnect g s a t1 = (?g1, s, [])"
    using ca two by (rule handleDisconnect_other_remains) (simp add: rest)
  have g1: "connectedUsers ?g1 u = Some {b}" by (simp add: rest)
  have cb1: "clientUserId ?g1 b = Some u" using cb by simp
  have second: "handleDisconnect ?g1 s b t2 =
                  (?g2, updateStatus s u OFFLINE t2, [BroadcastEmit b (UserOffline u)])"
    using cb1 g1 by (rule handleDisconnect_last) simp
  have g2: "connectedUsers ?g2 u = None" by simp
  from online have "statusOf s u \<noteq> None" by simp
  then have off: "statusOf (updateStatus s u OFFLINE t2) u = Some OFFLINE"
    by (rule statusOf_updateStatus)
  from first g1 second g2 off show ?thesis by blast
qed

lemma demoConnected_state:
  "connectedUsers (fst demoConnected) 1 = Some {11, 12}"
  "clientUserId (fst demoConnected) 11 = Some 1"
  "clientUserId (fst demoConnected) 12 = Some 1"
  "statusOf (fst (snd demoConnected)) 1 = Some ONLINE"
  by (auto simp: demoConnected_def handleConnection_def demoGateway_def demoVerify_def
        demoStore_def demoUser_def updateStatus_def statusOf_def Let_def)

theorem handleDisconnect_presence_witness:
  "connectedUsers (fst demoConnected) 1 = Some {11, 12} \<and>
   clientUserId (fst demoConnected) 11 = Some 1 \<and>
   clientUserId (fst demoConnected) 12 = Some 1 \<and>
   statusOf (fst (snd demoConnected)) 1 = Some ONLINE \<and>
   (\<exists>g1 g2 s2.
      handleDisconnect (fst demoConnected) (fst (snd demoConnected)) 11 200
        = (g1, fst (snd demoConnected), []) \<and>
      connectedUsers g1 1 = Some {12} \<and>
      handleDisconnect g1 (fst (snd demoConnected)) 12 300
        = (g2, s2, [BroadcastEmit 12 (UserOffline 1)]) \<and>
      connectedUsers g2 1 = None \<and>
      s2 = updateStatus (fst (snd demoConnected)) 1 OFFLINE 300 \<and>
      statusOf s2 1 = Some OFFLINE)"
proof -
  have ne: "(11::nat) \<noteq> 12" by simp
  note w = handleDisconnect_presence[OF demoConnected_state(1) ne demoConnected_state(2,3,4),
             of 200 300]
  with demoConnected_state show ?thesis by (intro conjI)
qed

section \<open>createConversation for a pair\<close>



















end
